theory Spec2Isabelle
  imports Main
begin

section \<open>Go values and effects used by the client pool\<close>

text \<open>
  The development embeds \<^verbatim>\<open>core/scenario/client_pool.go\<close>. One goroutine at a time
  runs an operation (the \<^verbatim>\<open>sync.RWMutex\<close> is only ever taken in shared mode and
  guards nothing in a sequential run, so it is left out). An allocation that the
  runtime accepts never runs out of memory, and a Go \<^verbatim>\<open>int\<close> is an \<^typ>\<open>int\<close>:
  the code only compares the two capacities and counts from \<open>0\<close> up to \<open>initialCap\<close>,
  which cannot overflow.

  A \<^verbatim>\<open>*http.Client\<close> is either the nil pointer or a pointer to a client, which is
  identified by a number.
\<close>

datatype client_ptr = NilClient | Client nat

text \<open>A Go \<^verbatim>\<open>error\<close>: \<open>None\<close> is nil, \<open>Some msg\<close> is \<^verbatim>\<open>errors.New(msg)\<close>.\<close>

type_synonym go_error = "string option"

text \<open>
  An operation returns, panics, or blocks forever (a send that no goroutine will ever
  unblock).
\<close>

datatype panic =
  SendOnClosedChannel | CloseOfClosedChannel | CloseOfNilChannel | NilPointerDereference
  | MakechanSizeOutOfRange

datatype 'a outcome = Returns 'a | Panics panic | Blocks

fun andThen :: "'a outcome \<Rightarrow> ('a \<Rightarrow> 'b outcome) \<Rightarrow> 'b outcome" where
  "andThen (Returns x) k = k x"
| "andThen (Panics p) k = Panics p"
| "andThen Blocks k = Blocks"

text \<open>
  What lies outside the pool: how often a factory has been invoked so far, and the clients
  on which \<^verbatim>\<open>CloseIdleConnections\<close> has been called, in call order.
\<close>

record world =
  calls :: nat
  released :: "nat list"

text \<open>
  \<^verbatim>\<open>type Factory func() *http.Client\<close>. A factory is a Go closure; the model fixes the
  pointer it returns at its \<open>n\<close>-th invocation (counted in \<^const>\<open>calls\<close>), so that any
  sequence of results, nil pointers included, is a factory. It is assumed to return and
  to leave the pool alone.
\<close>

type_synonym Factory = "nat \<Rightarrow> client_ptr"

definition invoke :: "Factory \<Rightarrow> world \<Rightarrow> client_ptr \<times> world" where
  "invoke f w = (f (calls w), w\<lparr>calls := Suc (calls w)\<rparr>)"

text \<open>
  \<^verbatim>\<open>(*http.Client).CloseIdleConnections\<close> of the standard library reads the
  receiver's \<^verbatim>\<open>Transport\<close> field, which panics on a nil receiver; on a client it closes
  the idle connections of the transport, recorded in \<^const>\<open>released\<close>.
\<close>

fun CloseIdleConnections :: "client_ptr \<Rightarrow> world \<Rightarrow> world outcome" where
  "CloseIdleConnections NilClient w = Panics NilPointerDereference"
| "CloseIdleConnections (Client h) w = Returns (w\<lparr>released := released w @ [h]\<rparr>)"

subsection \<open>Buffered channels\<close>

text \<open>
  The state of a \<^verbatim>\<open>chan *http.Client\<close>: the queued elements (the head is received
  next), the capacity given to \<^verbatim>\<open>make\<close>, and whether \<^verbatim>\<open>close\<close> has been called.
  A channel variable may also hold the nil channel, modelled by \<open>None\<close>.
\<close>

record chan =
  buf :: "client_ptr list"
  cap :: nat
  closed :: bool

text \<open>
  \<^verbatim>\<open>make(chan *http.Client, n)\<close>. The runtime's \<^verbatim>\<open>makechan\<close> panics with
  \<^verbatim>\<open>makechan: size out of range\<close> when \<open>n\<close> is negative or the buffer of
  \<open>n\<close> elements does not fit below \<^verbatim>\<open>maxAlloc - hchanSize\<close>. The constants are
  those of a 64-bit platform with a 48-bit heap address space, such as linux/amd64:
  an element is a pointer of 8 bytes, \<^verbatim>\<open>maxAlloc\<close> is \<open>2 ^ 48\<close> and the channel
  header takes 96 bytes.
\<close>

definition makechan_limit :: int where
  "makechan_limit = (2 ^ 48 - 96) div 8"

definition make_chan :: "int \<Rightarrow> chan outcome" where
  "make_chan n =
     (if n < 0 \<or> n > makechan_limit then Panics MakechanSizeOutOfRange
      else Returns \<lparr>buf = [], cap = nat n, closed = False\<rparr>)"

text \<open>The send statement \<^verbatim>\<open>ch <- v\<close>, with no other goroutine to receive.\<close>

definition chan_send :: "chan option \<Rightarrow> client_ptr \<Rightarrow> chan option outcome" where
  "chan_send c v =
     (case c of
        None \<Rightarrow> Blocks
      | Some ch \<Rightarrow>
          if closed ch then Panics SendOnClosedChannel
          else if length (buf ch) < cap ch then Returns (Some (ch\<lparr>buf := buf ch @ [v]\<rparr>))
          else Blocks)"

text \<open>
  \<^verbatim>\<open>select { case ch <- v: ... default: ... }\<close> on a non-nil channel: \<open>Some\<close> the new
  channel state when the send was taken, \<open>None\<close> when the default was. A send on a closed
  channel is ready and panics.
\<close>

definition select_send :: "chan \<Rightarrow> client_ptr \<Rightarrow> chan option outcome" where
  "select_send ch v =
     (if closed ch then Panics SendOnClosedChannel
      else if length (buf ch) < cap ch then Returns (Some (ch\<lparr>buf := buf ch @ [v]\<rparr>))
      else Returns None)"

text \<open>
  \<^verbatim>\<open>select { case v = <-ch: default: ... }\<close>: \<open>Some\<close> the received value and the new
  channel when the receive was taken, \<open>None\<close> when the default was. A receive from a
  closed, drained channel is ready and yields the zero value; a nil channel is never
  ready.
\<close>

definition select_recv :: "chan option \<Rightarrow> (client_ptr \<times> chan option) option" where
  "select_recv c =
     (case c of
        None \<Rightarrow> None
      | Some ch \<Rightarrow>
          (case buf ch of
             v # vs \<Rightarrow> Some (v, Some (ch\<lparr>buf := vs\<rparr>))
           | [] \<Rightarrow> if closed ch then Some (NilClient, Some ch) else None))"

definition close_chan :: "chan option \<Rightarrow> chan outcome" where
  "close_chan c =
     (case c of
        None \<Rightarrow> Panics CloseOfNilChannel
      | Some ch \<Rightarrow>
          if closed ch then Panics CloseOfClosedChannel else Returns (ch\<lparr>closed := True\<rparr>))"

definition len_chan :: "chan option \<Rightarrow> int" where
  "len_chan c = (case c of None \<Rightarrow> 0 | Some ch \<Rightarrow> int (length (buf ch)))"

section \<open>The client pool\<close>

text \<open>
  \<^verbatim>\<open>type clientPool struct\<close>. The struct holds a reference to its channel; there is one
  channel per pool and nothing else refers to it, so the channel state is kept in the
  field.
\<close>

record clientPool =
  clients :: "chan option"
  factory :: Factory

text \<open>
  The loop \<^verbatim>\<open>for i := 0; i < initialCap; i++\<close> of \<^verbatim>\<open>NewClientPool\<close>, entered at
  counter \<open>i\<close>.
\<close>

function fill :: "int \<Rightarrow> int \<Rightarrow> clientPool \<Rightarrow> world \<Rightarrow> (clientPool \<times> world) outcome" where
  "fill i initialCap pool w =
     (if i < initialCap then
        (case invoke (factory pool) w of
           (client, w') \<Rightarrow>
             andThen (chan_send (clients pool) client)
               (\<lambda>cl. fill (i + 1) initialCap (pool\<lparr>clients := cl\<rparr>) w'))
      else Returns (pool, w))"
  by pat_completeness auto
termination
  by (relation "measure (\<lambda>(i, initialCap, pool, w). nat (initialCap - i))") auto

declare fill.simps [simp del]

text \<open>\<^verbatim>\<open>NewClientPool\<close> returns the pair \<^verbatim>\<open>(*clientPool, error)\<close>.\<close>

definition NewClientPool ::
  "int \<Rightarrow> int \<Rightarrow> Factory \<Rightarrow> world \<Rightarrow> ((clientPool option \<times> go_error) \<times> world) outcome" where
  "NewClientPool initialCap maxCap f w =
     (if initialCap < 0 \<or> maxCap \<le> 0 \<or> initialCap > maxCap then
        Returns ((None, Some ''invalid capacity settings''), w)
      else
        andThen (make_chan maxCap)
          (\<lambda>ch. andThen (fill 0 initialCap \<lparr>clients = Some ch, factory = f\<rparr> w)
             (\<lambda>(pool, w'). Returns ((Some pool, None), w'))))"

definition getConnsAndFactory :: "clientPool \<Rightarrow> chan option \<times> Factory" where
  "getConnsAndFactory c = (clients c, factory c)"

text \<open>
  \<^verbatim>\<open>Get\<close> returns the client; the pool after the call and the world after the call are
  returned with it.
\<close>

definition Get :: "clientPool \<Rightarrow> world \<Rightarrow> (client_ptr \<times> clientPool \<times> world) outcome" where
  "Get c w =
     (case getConnsAndFactory c of
        (cl, f) \<Rightarrow>
          (case select_recv cl of
             Some (client, cl') \<Rightarrow> Returns (client, c\<lparr>clients := cl'\<rparr>, w)
           | None \<Rightarrow> (case invoke f w of (client, w') \<Rightarrow> Returns (client, c, w'))))"

definition Put :: "clientPool \<Rightarrow> client_ptr \<Rightarrow> world \<Rightarrow> (go_error \<times> clientPool \<times> world) outcome" where
  "Put c client w =
     (if client = NilClient then Returns (Some ''client is nil. rejecting'', c, w)
      else
        (case clients c of
           None \<Rightarrow> andThen (CloseIdleConnections client w) (\<lambda>w'. Returns (None, c, w'))
         | Some ch \<Rightarrow>
             andThen (select_send ch client)
               (\<lambda>sent. case sent of
                  Some ch' \<Rightarrow> Returns (None, c\<lparr>clients := Some ch'\<rparr>, w)
                | None \<Rightarrow>
                    andThen (CloseIdleConnections client w) (\<lambda>w'. Returns (None, c, w')))))"

definition Len :: "clientPool \<Rightarrow> int" where
  "Len c = (case getConnsAndFactory c of (conns, _) \<Rightarrow> len_chan conns)"

text \<open>
  \<^verbatim>\<open>for c := range ch { c.CloseIdleConnections() }\<close> on a channel with the given queue:
  every queued element is received in order; the loop ends once the queue is empty and
  the channel closed, and waits forever on an empty open channel.
\<close>

fun range_close :: "client_ptr list \<Rightarrow> bool \<Rightarrow> world \<Rightarrow> world outcome" where
  "range_close [] is_closed w = (if is_closed then Returns w else Blocks)"
| "range_close (v # vs) is_closed w =
     andThen (CloseIdleConnections v w) (\<lambda>w'. range_close vs is_closed w')"

definition Done :: "clientPool \<Rightarrow> world \<Rightarrow> (clientPool \<times> world) outcome" where
  "Done c w =
     andThen (close_chan (clients c))
       (\<lambda>ch. andThen (range_close (buf ch) (closed ch) w)
          (\<lambda>w'. Returns (c\<lparr>clients := Some (ch\<lparr>buf := []\<rparr>)\<rparr>, w')))"

section \<open>Running the pool\<close>

text \<open>
  A caller's sequence of \<open>Get\<close> and \<open>Put\<close> calls, run one after the other, with what
  each call returned.
\<close>

datatype op = OpGet | OpPut client_ptr

datatype reply = GetReply client_ptr | PutReply go_error

fun run :: "op list \<Rightarrow> clientPool \<Rightarrow> world \<Rightarrow> (reply list \<times> clientPool \<times> world) outcome" where
  "run [] c w = Returns ([], c, w)"
| "run (OpGet # ops) c w =
     andThen (Get c w) (\<lambda>(x, c', w').
       andThen (run ops c' w') (\<lambda>(rs, c'', w''). Returns (GetReply x # rs, c'', w'')))"
| "run (OpPut x # ops) c w =
     andThen (Put c x w) (\<lambda>(e, c', w').
       andThen (run ops c' w') (\<lambda>(rs, c'', w''). Returns (PutReply e # rs, c'', w'')))"

text \<open>The handles resident in the buffer, and a pool that is open with capacity \<open>m\<close>.\<close>

definition resident :: "clientPool \<Rightarrow> client_ptr list" where
  "resident c = (case clients c of None \<Rightarrow> [] | Some ch \<Rightarrow> buf ch)"

definition open_pool :: "nat \<Rightarrow> clientPool \<Rightarrow> bool" where
  "open_pool m c =
     (case clients c of
        None \<Rightarrow> False
      | Some ch \<Rightarrow> \<not> closed ch \<and> cap ch = m \<and> length (buf ch) \<le> m)"

text \<open>
  Concrete inputs: a factory whose \<open>n\<close>-th product is client \<open>n\<close>, the initial world,
  the pool that \<^verbatim>\<open>NewClientPool(2, 5, fresh)\<close> builds there, and the same pool after
  \<open>Done\<close>.
\<close>

definition fresh :: Factory where
  "fresh n = Client n"

definition w0 :: world where
  "w0 = \<lparr>calls = 0, released = []\<rparr>"

definition w2 :: world where
  "w2 = \<lparr>calls = 2, released = []\<rparr>"

definition w2_released :: world where
  "w2_released = \<lparr>calls = 2, released = [0, 1]\<rparr>"

definition example_pool :: clientPool where
  "example_pool =
     \<lparr>clients = Some \<lparr>buf = [Client 0, Client 1], cap = 5, closed = False\<rparr>, factory = fresh\<rparr>"

definition example_shut :: clientPool where
  "example_shut = \<lparr>clients = Some \<lparr>buf = [], cap = 5, closed = True\<rparr>, factory = fresh\<rparr>"

text \<open>
  A factory that returns the nil pointer at every invocation, the pool that
  \<^verbatim>\<open>NewClientPool(1, 1, no_client)\<close> builds in the initial world, the world after that
  call, and the same pool once its one resident pointer has been taken.
\<close>

definition no_client :: Factory where
  "no_client n = NilClient"

definition w_nil :: world where
  "w_nil = \<lparr>calls = 1, released = []\<rparr>"

definition nil_pool :: clientPool where
  "nil_pool = \<lparr>clients = Some \<lparr>buf = [NilClient], cap = 1, closed = False\<rparr>, factory = no_client\<rparr>"

definition nil_pool_taken :: clientPool where
  "nil_pool_taken = \<lparr>clients = Some \<lparr>buf = [], cap = 1, closed = False\<rparr>, factory = no_client\<rparr>"

section \<open>Single steps\<close>

lemma Get_dequeue:
  "clients c = Some ch \<Longrightarrow> buf ch = v # vs \<Longrightarrow>
   Get c w = Returns (v, c\<lparr>clients := Some (ch\<lparr>buf := vs\<rparr>)\<rparr>, w)"
  by (simp add: Get_def getConnsAndFactory_def select_recv_def)

lemma Get_factory:
  "clients c = Some ch \<Longrightarrow> \<not> closed ch \<Longrightarrow> buf ch = [] \<Longrightarrow>
   Get c w = Returns (factory c (calls w), c, w\<lparr>calls := Suc (calls w)\<rparr>)"
  by (simp add: Get_def getConnsAndFactory_def select_recv_def invoke_def)

lemma Get_closed_drained:
  "clients c = Some ch \<Longrightarrow> closed ch \<Longrightarrow> buf ch = [] \<Longrightarrow> Get c w = Returns (NilClient, c, w)"
  by (simp add: Get_def getConnsAndFactory_def select_recv_def)

lemma Put_enqueue:
  "clients c = Some ch \<Longrightarrow> \<not> closed ch \<Longrightarrow> length (buf ch) < cap ch \<Longrightarrow>
   Put c (Client h) w =
     Returns (None, c\<lparr>clients := Some (ch\<lparr>buf := buf ch @ [Client h]\<rparr>)\<rparr>, w)"
  by (simp add: Put_def select_send_def)

lemma Put_overflow:
  "clients c = Some ch \<Longrightarrow> \<not> closed ch \<Longrightarrow> \<not> length (buf ch) < cap ch \<Longrightarrow>
   Put c (Client h) w = Returns (None, c, w\<lparr>released := released w @ [h]\<rparr>)"
  by (simp add: Put_def select_send_def)

lemma Put_closed:
  "clients c = Some ch \<Longrightarrow> closed ch \<Longrightarrow> Put c (Client h) w = Panics SendOnClosedChannel"
  by (simp add: Put_def select_send_def)

lemma Len_Some: "clients c = Some ch \<Longrightarrow> Len c = int (length (buf ch))"
  by (simp add: Len_def getConnsAndFactory_def len_chan_def)

lemma range_close_clients:
  "range_close (map Client hs) True w = Returns (w\<lparr>released := released w @ hs\<rparr>)"
  by (induction hs arbitrary: w) simp_all

lemma Done_returns:
  assumes "Done c w = Returns (c', w')"
  shows "\<exists>ch. clients c' = Some ch \<and> closed ch \<and> buf ch = []"
proof (cases "clients c")
  case None
  then show ?thesis using assms by (simp add: Done_def close_chan_def)
next
  case (Some ch)
  show ?thesis
  proof (cases "closed ch")
    case True
    then show ?thesis using assms Some by (simp add: Done_def close_chan_def)
  next
    case False
    then show ?thesis using assms Some
      by (cases "range_close (buf ch) True w") (auto simp: Done_def close_chan_def)
  qed
qed

lemma Done_closed:
  "clients c = Some ch \<Longrightarrow> closed ch \<Longrightarrow> Done c w = Panics CloseOfClosedChannel"
  by (simp add: Done_def close_chan_def)

text \<open>
  \<open>Done\<close> leaves the channel in the field, closed: whenever it has returned, a later
  \<open>Put\<close> of a client finds \<^verbatim>\<open>c.clients\<close> non-nil and sends on the closed channel.
\<close>

lemma shut_pool_Put_panics:
  assumes "Done c w = Returns (c', w')"
  shows "Put c' (Client h) w'' = Panics SendOnClosedChannel"
proof -
  from Done_returns [OF assms] obtain ch where "clients c' = Some ch" "closed ch" by blast
  then show ?thesis by (rule Put_closed)
qed

lemma Done_example: "Done example_pool w2 = Returns (example_shut, w2_released)"
  by (simp add: example_pool_def example_shut_def w2_def w2_released_def Done_def close_chan_def)

section \<open>Construction\<close>

text \<open>
  The filling loop on an open channel with room for the handles still to come: it
  returns, having invoked the factory once per remaining round and queued each product.
\<close>

lemma fill_open:
  assumes "clients pool = Some ch" "\<not> closed ch"
    and "length (buf ch) + nat (n - i) \<le> cap ch"
  shows "fill i n pool w =
     Returns (pool\<lparr>clients := Some (ch\<lparr>buf := buf ch @
                  map (factory pool) [calls w ..< calls w + nat (n - i)]\<rparr>)\<rparr>,
              w\<lparr>calls := calls w + nat (n - i)\<rparr>)"
  using assms
proof (induction i n pool w arbitrary: ch rule: fill.induct)
  case (1 i n pool w)
  show ?case
  proof (cases "i < n")
    case False
    then show ?thesis using 1(2) by (simp add: fill.simps [of i n])
  next
    case True
    let ?ch' = "ch\<lparr>buf := buf ch @ [factory pool (calls w)]\<rparr>"
    let ?pool' = "pool\<lparr>clients := Some ?ch'\<rparr>"
    let ?w' = "w\<lparr>calls := Suc (calls w)\<rparr>"
    have k: "nat (n - i) = Suc (nat (n - (i + 1)))" using True by simp
    have room: "length (buf ch) < cap ch" using 1(4) True by simp
    have send: "chan_send (clients pool) (factory pool (calls w)) = Returns (Some ?ch')"
      using 1(2,3) room by (simp add: chan_send_def)
    have ih: "fill (i + 1) n ?pool' ?w' =
      Returns (?pool'\<lparr>clients := Some (?ch'\<lparr>buf := buf ?ch' @
                 map (factory ?pool') [calls ?w' ..< calls ?w' + nat (n - (i + 1))]\<rparr>)\<rparr>,
               ?w'\<lparr>calls := calls ?w' + nat (n - (i + 1))\<rparr>)"
      using 1(1) [OF True, of "factory pool (calls w)" ?w' "Some ?ch'" ?ch'] 1(3,4) True
      by (simp add: invoke_def)
    have "fill i n pool w = fill (i + 1) n ?pool' ?w'"
      using True send by (simp add: fill.simps [of i n] invoke_def)
    also note ih
    finally show ?thesis
      by (simp add: k upt_conv_Cons)
  qed
qed

lemma NewClientPool_invalid:
  "initialCap < 0 \<or> maxCap \<le> 0 \<or> initialCap > maxCap \<Longrightarrow>
   NewClientPool initialCap maxCap f w = Returns ((None, Some ''invalid capacity settings''), w)"
  by (simp add: NewClientPool_def)

lemma NewClientPool_too_large:
  "0 \<le> initialCap \<Longrightarrow> initialCap \<le> maxCap \<Longrightarrow> 1 \<le> maxCap \<Longrightarrow> makechan_limit < maxCap \<Longrightarrow>
   NewClientPool initialCap maxCap f w = Panics MakechanSizeOutOfRange"
  by (simp add: NewClientPool_def make_chan_def)

lemma NewClientPool_valid:
  assumes "0 \<le> initialCap" "initialCap \<le> maxCap" "1 \<le> maxCap" "maxCap \<le> makechan_limit"
  shows "NewClientPool initialCap maxCap f w =
     Returns ((Some \<lparr>clients = Some \<lparr>buf = map f [calls w ..< calls w + nat initialCap],
                                     cap = nat maxCap, closed = False\<rparr>,
                      factory = f\<rparr>, None),
              w\<lparr>calls := calls w + nat initialCap\<rparr>)"
proof -
  let ?ch = "\<lparr>buf = [], cap = nat maxCap, closed = False\<rparr>"
  let ?pool = "\<lparr>clients = Some ?ch, factory = f\<rparr>"
  have "fill 0 initialCap ?pool w =
     Returns (?pool\<lparr>clients := Some (?ch\<lparr>buf := buf ?ch @
                 map (factory ?pool) [calls w ..< calls w + nat (initialCap - 0)]\<rparr>)\<rparr>,
              w\<lparr>calls := calls w + nat (initialCap - 0)\<rparr>)"
    by (rule fill_open) (use assms in simp_all)
  then show ?thesis using assms by (simp add: NewClientPool_def make_chan_def)
qed

lemma NewClientPool_Some:
  assumes "NewClientPool initialCap maxCap f w = Returns ((Some p, e), w1)"
  shows "0 \<le> initialCap \<and> initialCap \<le> maxCap \<and> 1 \<le> maxCap \<and> maxCap \<le> makechan_limit"
proof -
  have c: "0 \<le> initialCap \<and> initialCap \<le> maxCap \<and> 1 \<le> maxCap"
  proof (rule ccontr)
    assume "\<not> ?thesis"
    then have "initialCap < 0 \<or> maxCap \<le> 0 \<or> initialCap > maxCap" by linarith
    from NewClientPool_invalid [OF this, of f w] assms show False by simp
  qed
  have "maxCap \<le> makechan_limit"
  proof (rule ccontr)
    assume "\<not> ?thesis"
    then have "makechan_limit < maxCap" by simp
    with c assms show False by (simp add: NewClientPool_too_large)
  qed
  with c show ?thesis by simp
qed

lemma NewClientPool_example:
  "NewClientPool 2 5 fresh w0 = Returns ((Some example_pool, None), w2)"
  by (simp add: NewClientPool_valid makechan_limit_def example_pool_def w0_def w2_def upt_rec
      fresh_def)

lemma NewClientPool_nil_example:
  "NewClientPool 1 1 no_client w0 = Returns ((Some nil_pool, None), w_nil)"
  by (simp add: NewClientPool_valid makechan_limit_def nil_pool_def w0_def w_nil_def no_client_def)

section \<open>What Get and Put preserve\<close>

lemma open_poolD:
  "open_pool m c \<Longrightarrow>
   \<exists>ch. clients c = Some ch \<and> \<not> closed ch \<and> cap ch = m \<and> length (buf ch) \<le> m"
  by (auto simp: open_pool_def split: option.splits)

lemma Get_open_pool:
  assumes "open_pool m c"
  shows "\<exists>x c' w'. Get c w = Returns (x, c', w') \<and> open_pool m c' \<and> factory c' = factory c
           \<and> set (resident c') \<subseteq> set (resident c)"
proof -
  from open_poolD [OF assms] obtain ch where
    ch: "clients c = Some ch" "\<not> closed ch" "cap ch = m" "length (buf ch) \<le> m" by blast
  show ?thesis
  proof (cases "buf ch")
    case Nil
    then show ?thesis using ch assms Get_factory [OF ch(1,2), of w] by simp
  next
    case (Cons v vs)
    have "open_pool m (c\<lparr>clients := Some (ch\<lparr>buf := vs\<rparr>)\<rparr>)"
      using ch Cons by (simp add: open_pool_def)
    then show ?thesis using ch Cons Get_dequeue [OF ch(1) Cons, of w]
      by (auto simp: resident_def)
  qed
qed

lemma Put_open_pool:
  assumes "open_pool m c"
  shows "\<exists>e c' w'. Put c x w = Returns (e, c', w') \<and> open_pool m c' \<and> factory c' = factory c
           \<and> NilClient \<notin> set (resident c') - set (resident c)"
proof -
  from open_poolD [OF assms] obtain ch where
    ch: "clients c = Some ch" "\<not> closed ch" "cap ch = m" "length (buf ch) \<le> m" by blast
  show ?thesis
  proof (cases x)
    case NilClient
    then show ?thesis using assms by (simp add: Put_def)
  next
    case (Client h)
    show ?thesis
    proof (cases "length (buf ch) < cap ch")
      case True
      have "open_pool m (c\<lparr>clients := Some (ch\<lparr>buf := buf ch @ [Client h]\<rparr>)\<rparr>)"
        using ch True by (simp add: open_pool_def)
      then show ?thesis using ch Client Put_enqueue [OF ch(1,2) True, of h w]
        by (auto simp: resident_def)
    next
      case False
      then show ?thesis using assms ch Client Put_overflow [OF ch(1,2) False, of h w]
        by auto
    qed
  qed
qed

lemma run_open_pool:
  "open_pool m c \<Longrightarrow>
   \<exists>rs c' w'. run ops c w = Returns (rs, c', w') \<and> open_pool m c' \<and> factory c' = factory c
      \<and> (NilClient \<notin> set (resident c) \<longrightarrow> NilClient \<notin> set (resident c'))"
proof (induction ops arbitrary: c w)
  case Nil
  then show ?case by simp
next
  case (Cons a ops)
  show ?case
  proof (cases a)
    case OpGet
    from Get_open_pool [OF Cons.prems(1), of w] obtain x c1 w1 where
      g: "Get c w = Returns (x, c1, w1)" "open_pool m c1" "factory c1 = factory c"
         "set (resident c1) \<subseteq> set (resident c)" by blast
    from Cons.IH [OF g(2), of w1] obtain rs c2 w2 where
      r: "run ops c1 w1 = Returns (rs, c2, w2)" "open_pool m c2" "factory c2 = factory c1"
         "NilClient \<notin> set (resident c1) \<longrightarrow> NilClient \<notin> set (resident c2)" by blast
    show ?thesis using OpGet g r by auto
  next
    case (OpPut x)
    from Put_open_pool [OF Cons.prems(1), of x w] obtain e c1 w1 where
      g: "Put c x w = Returns (e, c1, w1)" "open_pool m c1" "factory c1 = factory c"
         "NilClient \<notin> set (resident c1) - set (resident c)" by blast
    from Cons.IH [OF g(2), of w1] obtain rs c2 w2 where
      r: "run ops c1 w1 = Returns (rs, c2, w2)" "open_pool m c2" "factory c2 = factory c1"
         "NilClient \<notin> set (resident c1) \<longrightarrow> NilClient \<notin> set (resident c2)" by blast
    show ?thesis using OpPut g r by auto
  qed
qed

text \<open>
  Every pool that \<^verbatim>\<open>NewClientPool\<close> has returned and that \<open>Get\<close> and \<open>Put\<close> have
  used since is open: its channel is there, is not closed and holds no more handles than
  its capacity. If the factory never returns the nil pointer, no nil pointer is resident
  either. These are the hypotheses under which the statements about open pools below are
  proved.
\<close>

lemma constructed_pool_open:
  assumes "NewClientPool initialCap maxCap f w = Returns ((Some p, e), w1)"
    and "run ops p w1 = Returns (rs, p', w')"
  shows "\<exists>ch. clients p' = Some ch \<and> \<not> closed ch \<and> cap ch = nat maxCap
            \<and> length (buf ch) \<le> cap ch \<and> factory p' = f
            \<and> ((\<forall>n. f n \<noteq> NilClient) \<longrightarrow> NilClient \<notin> set (buf ch))"
proof -
  from NewClientPool_Some [OF assms(1)] have
    v: "0 \<le> initialCap" "initialCap \<le> maxCap" "1 \<le> maxCap" "maxCap \<le> makechan_limit"
    by simp_all
  let ?b = "map f [calls w ..< calls w + nat initialCap]"
  have p: "p = \<lparr>clients = Some \<lparr>buf = ?b, cap = nat maxCap, closed = False\<rparr>, factory = f\<rparr>"
    using NewClientPool_valid [OF v, of f w] assms(1) by simp
  have op: "open_pool (nat maxCap) p" using v by (simp add: p open_pool_def)
  have res: "(\<forall>n. f n \<noteq> NilClient) \<longrightarrow> NilClient \<notin> set (resident p)"
    unfolding p resident_def by (simp add: image_iff) metis
  from run_open_pool [OF op, of ops w1] assms(2) have
    r: "open_pool (nat maxCap) p'" "factory p' = factory p"
       "NilClient \<notin> set (resident p) \<longrightarrow> NilClient \<notin> set (resident p')" by simp_all
  from open_poolD [OF r(1)] obtain ch where
    ch: "clients p' = Some ch" "\<not> closed ch" "cap ch = nat maxCap" "length (buf ch) \<le> nat maxCap"
    by blast
  show ?thesis using ch r(2,3) res by (simp add: p resident_def)
qed

text \<open>
  Putting \<open>hs\<close> and then \<open>h\<close> into an open pool that has room for exactly \<open>hs\<close>: all
  calls succeed, \<open>hs\<close> is queued and \<open>h\<close> released.
\<close>

lemma run_puts:
  "clients c = Some ch \<Longrightarrow> \<not> closed ch \<Longrightarrow> length (buf ch) + length hs = cap ch \<Longrightarrow>
   run (map (\<lambda>x. OpPut (Client x)) (hs @ [h])) c w =
   Returns (replicate (Suc (length hs)) (PutReply None),
            c\<lparr>clients := Some (ch\<lparr>buf := buf ch @ map Client hs\<rparr>)\<rparr>,
            w\<lparr>released := released w @ [h]\<rparr>)"
proof (induction hs arbitrary: c ch)
  case Nil
  then show ?case using Put_overflow [of c ch h w] by simp
next
  case (Cons x xs)
  let ?ch = "ch\<lparr>buf := buf ch @ [Client x]\<rparr>"
  let ?c = "c\<lparr>clients := Some ?ch\<rparr>"
  have put: "Put c (Client x) w = Returns (None, ?c, w)"
    using Cons.prems by (intro Put_enqueue) simp_all
  have "run (map (\<lambda>x. OpPut (Client x)) (xs @ [h])) ?c w =
    Returns (replicate (Suc (length xs)) (PutReply None),
            ?c\<lparr>clients := Some (?ch\<lparr>buf := buf ?ch @ map Client xs\<rparr>)\<rparr>,
            w\<lparr>released := released w @ [h]\<rparr>)"
    using Cons.prems by (intro Cons.IH) simp_all
  then show ?case using put by simp
qed

section \<open>Get\<close>

text \<open>
  C1 (amended to open pools). On every pool whose channel has not been closed by
  \<open>Done\<close>, \<open>Get\<close> is a non-blocking dequeue. If the buffer is empty it invokes the
  factory exactly once (the invocation count goes up by one) and returns that product,
  leaving the pool as it was. If the buffer is non-empty it returns the handle at its
  head and removes it, and the world is untouched: the factory is not invoked. In both
  cases \<open>Get\<close> returns; it neither blocks nor panics. The pointer returned is not nil
  when no nil pointer is resident and the factory's product is not nil.
\<close>

theorem Get_on_open_pool:
  assumes "clients c = Some ch" "\<not> closed ch"
  shows "(buf ch = [] \<longrightarrow>
            Get c w = Returns (factory c (calls w), c, w\<lparr>calls := Suc (calls w)\<rparr>))
       \<and> (\<forall>v vs. buf ch = v # vs \<longrightarrow>
            Get c w = Returns (v, c\<lparr>clients := Some (ch\<lparr>buf := vs\<rparr>)\<rparr>, w))
       \<and> (NilClient \<notin> set (buf ch) \<and> factory c (calls w) \<noteq> NilClient \<longrightarrow>
            (\<exists>h c' w'. Get c w = Returns (Client h, c', w')))"
proof (cases "buf ch")
  case Nil
  then show ?thesis using Get_factory [OF assms Nil, of w]
    by (cases "factory c (calls w)") simp_all
next
  case (Cons v vs)
  then show ?thesis using Get_dequeue [OF assms(1) Cons, of w]
    by (cases v) simp_all
qed

theorem Get_on_open_pool_witness:
  "Get example_pool w2 =
     Returns (Client 0,
              \<lparr>clients = Some \<lparr>buf = [Client 1], cap = 5, closed = False\<rparr>, factory = fresh\<rparr>, w2)
   \<and> Get \<lparr>clients = Some \<lparr>buf = [], cap = 5, closed = False\<rparr>, factory = fresh\<rparr> w2 =
     Returns (Client 2,
              \<lparr>clients = Some \<lparr>buf = [], cap = 5, closed = False\<rparr>, factory = fresh\<rparr>,
              \<lparr>calls = 3, released = []\<rparr>)"
  using
    Get_on_open_pool [of example_pool "\<lparr>buf = [Client 0, Client 1], cap = 5, closed = False\<rparr>" w2]
    Get_on_open_pool [of "\<lparr>clients = Some \<lparr>buf = [], cap = 5, closed = False\<rparr>, factory = fresh\<rparr>"
       "\<lparr>buf = [], cap = 5, closed = False\<rparr>" w2]
  by (simp add: example_pool_def w2_def fresh_def)

text \<open>
  C1 as stated speaks of every pool state. After \<open>Done\<close> the buffer is empty
  (\<open>Len\<close> is \<open>0\<close>), yet \<open>Get\<close> takes the receive on the closed channel: it returns the
  nil pointer and leaves the world, and with it the invocation count of the factory, as
  it was.
\<close>

theorem Get_after_Done_counterexample:
  "Done example_pool w2 = Returns (example_shut, w2_released)
   \<and> Len example_shut = 0
   \<and> Get example_shut w2_released = Returns (NilClient, example_shut, w2_released)"
  by (simp add: example_pool_def example_shut_def w2_def w2_released_def Done_def close_chan_def
      Len_def getConnsAndFactory_def len_chan_def Get_def select_recv_def)

section \<open>Put\<close>

text \<open>
  C2. On an open pool whose buffer is full, \<open>Put\<close> of a non-nil handle calls
  \<^verbatim>\<open>CloseIdleConnections\<close> on it, leaves the pool as it was, so that the handle is not
  queued, and returns the nil error. In particular, on an open pool with an empty buffer
  of capacity \<open>maxCap\<close>, \<open>maxCap + 1\<close> consecutive calls of \<open>Put\<close> with non-nil handles
  all return the nil error, queue the first \<open>maxCap\<close> handles, so that \<open>Len\<close> is
  \<open>maxCap\<close>, and release exactly the last one.
\<close>

theorem Put_on_full_pool:
  assumes "clients c = Some ch" "\<not> closed ch"
  shows "(length (buf ch) = cap ch \<longrightarrow>
            Put c (Client h) w = Returns (None, c, w\<lparr>released := released w @ [h]\<rparr>))
       \<and> (buf ch = [] \<and> length hs = cap ch \<longrightarrow>
            (\<exists>c'. run (map (\<lambda>x. OpPut (Client x)) (hs @ [h])) c w =
                    Returns (replicate (cap ch + 1) (PutReply None), c',
                             w\<lparr>released := released w @ [h]\<rparr>)
                 \<and> resident c' = map Client hs \<and> Len c' = int (cap ch)))"
proof (intro conjI impI)
  assume "length (buf ch) = cap ch"
  then show "Put c (Client h) w = Returns (None, c, w\<lparr>released := released w @ [h]\<rparr>)"
    using Put_overflow [OF assms, of h w] by simp
next
  assume a: "buf ch = [] \<and> length hs = cap ch"
  let ?c = "c\<lparr>clients := Some (ch\<lparr>buf := buf ch @ map Client hs\<rparr>)\<rparr>"
  have "run (map (\<lambda>x. OpPut (Client x)) (hs @ [h])) c w =
          Returns (replicate (Suc (length hs)) (PutReply None), ?c,
                   w\<lparr>released := released w @ [h]\<rparr>)"
    using a by (intro run_puts assms) simp
  moreover have "resident ?c = map Client hs" "Len ?c = int (cap ch)"
    using a by (simp_all add: resident_def Len_def getConnsAndFactory_def len_chan_def)
  ultimately show "\<exists>c'. run (map (\<lambda>x. OpPut (Client x)) (hs @ [h])) c w =
                    Returns (replicate (cap ch + 1) (PutReply None), c',
                             w\<lparr>released := released w @ [h]\<rparr>)
                 \<and> resident c' = map Client hs \<and> Len c' = int (cap ch)"
    using a by auto
qed

theorem Put_on_full_pool_witness:
  "Put \<lparr>clients = Some \<lparr>buf = [Client 0, Client 1], cap = 2, closed = False\<rparr>, factory = fresh\<rparr>
       (Client 7) w2 =
     Returns (None,
              \<lparr>clients = Some \<lparr>buf = [Client 0, Client 1], cap = 2, closed = False\<rparr>, factory = fresh\<rparr>,
              \<lparr>calls = 2, released = [7]\<rparr>)
   \<and> (\<exists>c'. run [OpPut (Client 10), OpPut (Client 11), OpPut (Client 12)]
              \<lparr>clients = Some \<lparr>buf = [], cap = 2, closed = False\<rparr>, factory = fresh\<rparr> w0 =
            Returns ([PutReply None, PutReply None, PutReply None], c',
                     \<lparr>calls = 0, released = [12]\<rparr>)
          \<and> resident c' = [Client 10, Client 11] \<and> Len c' = 2)"
  using
    Put_on_full_pool [of
      "\<lparr>clients = Some \<lparr>buf = [Client 0, Client 1], cap = 2, closed = False\<rparr>, factory = fresh\<rparr>"
      "\<lparr>buf = [Client 0, Client 1], cap = 2, closed = False\<rparr>" 7 w2 "[]"]
    Put_on_full_pool [of
      "\<lparr>clients = Some \<lparr>buf = [], cap = 2, closed = False\<rparr>, factory = fresh\<rparr>"
      "\<lparr>buf = [], cap = 2, closed = False\<rparr>" 12 w0 "[10, 11]"]
  by (simp add: w0_def w2_def eval_nat_numeral)

text \<open>
  C7. In every pool state, open or shut down (and also with a nil channel), \<open>Put\<close> of the
  nil pointer returns the error \<^verbatim>\<open>client is nil. rejecting\<close> (the spec's
  RejectedNilHandle) and changes nothing: the pool, hence its length and its queue, and
  the world, hence the released clients, are as before.
\<close>

theorem Put_nil_rejected:
  "Put c NilClient w = Returns (Some ''client is nil. rejecting'', c, w)"
  by (simp add: Put_def)

text \<open>
  C4. A \<open>Put\<close> of a non-nil handle after \<open>Done\<close> should release the handle and return the
  nil error; the branch of \<open>Put\<close> for a nil \<^verbatim>\<open>c.clients\<close>, commented
  \<^verbatim>\<open>pool is closed, close passed client\<close>, does exactly that. \<open>Done\<close>, however, closes
  the channel and leaves \<^verbatim>\<open>c.clients\<close> pointing to it, so that branch is not taken and
  the \<^verbatim>\<open>select\<close> sends on a closed channel: \<open>Put\<close> panics. Here at the pool that
  \<^verbatim>\<open>NewClientPool(2, 5, fresh)\<close> builds, after \<open>Done\<close>, with client \<open>7\<close>.
\<close>

theorem Put_after_Done_panics:
  "NewClientPool 2 5 fresh w0 = Returns ((Some example_pool, None), w2)
   \<and> Done example_pool w2 = Returns (example_shut, w2_released)
   \<and> Put example_shut (Client 7) w2_released = Panics SendOnClosedChannel"
proof -
  have "Put example_shut (Client 7) w2_released = Panics SendOnClosedChannel"
    using Done_example by (rule shut_pool_Put_panics)
  with NewClientPool_example Done_example show ?thesis by simp
qed

section \<open>Len\<close>

text \<open>
  C3. For every pool that \<^verbatim>\<open>NewClientPool\<close> has returned with capacity \<open>maxCap\<close> and
  every finite sequence of \<open>Get\<close> and \<open>Put\<close> calls on it, the sequence runs to its end
  and \<open>Len\<close> is then between \<open>0\<close> and \<open>maxCap\<close>. Every prefix of a sequence is a sequence,
  so the bound holds after each call.
\<close>

theorem Len_within_capacity:
  assumes "NewClientPool initialCap maxCap f w = Returns ((Some p, e), w1)"
  shows "\<exists>rs p' w'. run ops p w1 = Returns (rs, p', w') \<and> 0 \<le> Len p' \<and> Len p' \<le> maxCap"
proof -
  from NewClientPool_Some [OF assms] have
    v: "0 \<le> initialCap" "initialCap \<le> maxCap" "1 \<le> maxCap" "maxCap \<le> makechan_limit"
    by simp_all
  have "open_pool (nat maxCap) p"
    using NewClientPool_valid [OF v, of f w] assms v by (auto simp: open_pool_def)
  from run_open_pool [OF this, of ops w1] obtain rs p' w' where
    r: "run ops p w1 = Returns (rs, p', w')" "open_pool (nat maxCap) p'" by blast
  from open_poolD [OF r(2)] obtain ch where
    ch: "clients p' = Some ch" "length (buf ch) \<le> nat maxCap" by blast
  have "0 \<le> Len p'" "Len p' \<le> maxCap"
    using ch v by (simp_all add: Len_Some [OF ch(1)])
  with r(1) show ?thesis by blast
qed

theorem Len_within_capacity_witness:
  "NewClientPool 2 5 fresh w0 = Returns ((Some example_pool, None), w2)
   \<and> (\<exists>rs p' w'. run [OpGet, OpPut (Client 7), OpPut NilClient, OpPut (Client 8), OpGet]
                    example_pool w2 = Returns (rs, p', w')
        \<and> 0 \<le> Len p' \<and> Len p' \<le> 5)"
  using NewClientPool_example Len_within_capacity [OF NewClientPool_example]
  by (rule conjI)

section \<open>NewClientPool\<close>

text \<open>
  C5 (amended by \<open>maxCap \<ge> 1\<close> and by the largest capacity \<^verbatim>\<open>make\<close> accepts). For
  all \<open>initialCap\<close> and \<open>maxCap\<close> with \<open>0 \<le> initialCap \<le> maxCap\<close>, \<open>1 \<le> maxCap\<close> and
  \<open>maxCap\<close> at most \<^const>\<open>makechan_limit\<close>, \<^verbatim>\<open>NewClientPool\<close> returns a pool and the
  nil error. It has then invoked the factory exactly \<open>initialCap\<close> times and done
  nothing else to the world, the buffer holds the products in the order of their
  creation, and \<open>Len\<close> is \<open>initialCap\<close>.
\<close>

theorem NewClientPool_succeeds:
  assumes "0 \<le> initialCap" "initialCap \<le> maxCap" "1 \<le> maxCap" "maxCap \<le> makechan_limit"
  shows "\<exists>p. NewClientPool initialCap maxCap f w =
               Returns ((Some p, None), w\<lparr>calls := calls w + nat initialCap\<rparr>)
           \<and> clients p = Some \<lparr>buf = map f [calls w ..< calls w + nat initialCap],
                                cap = nat maxCap, closed = False\<rparr>
           \<and> factory p = f
           \<and> Len p = initialCap"
  using NewClientPool_valid [OF assms, of f w] assms
  by (simp add: Len_def getConnsAndFactory_def len_chan_def)

theorem NewClientPool_succeeds_witness:
  "(0::int) \<le> 2 \<and> (2::int) \<le> 5 \<and> (1::int) \<le> 5 \<and> 5 \<le> makechan_limit
   \<and> (\<exists>p. NewClientPool 2 5 fresh w0 = Returns ((Some p, None), \<lparr>calls = 2, released = []\<rparr>)
        \<and> clients p = Some \<lparr>buf = [Client 0, Client 1], cap = 5, closed = False\<rparr>
        \<and> factory p = fresh \<and> Len p = 2)"
  using NewClientPool_succeeds [of 2 5 fresh w0]
  by (simp add: makechan_limit_def w0_def upt_rec fresh_def eval_nat_numeral)

text \<open>
  C5 as stated asks only for \<open>0 \<le> initialCap \<le> maxCap\<close>. That is met by
  \<open>initialCap = maxCap = 0\<close>, where \<^verbatim>\<open>NewClientPool\<close> rejects the \<open>maxCap\<close> of \<open>0\<close>, and
  by \<open>initialCap = 0\<close>, \<open>maxCap = 2 ^ 62\<close>, where it passes the capacity check and
  \<^verbatim>\<open>make\<close> panics: no pool is returned in either case.
\<close>

theorem NewClientPool_capacity_counterexample:
  "(0::int) \<le> 0
   \<and> NewClientPool 0 0 fresh w0 = Returns ((None, Some ''invalid capacity settings''), w0)
   \<and> (0::int) \<le> 2 ^ 62
   \<and> NewClientPool 0 (2 ^ 62) fresh w0 = Panics MakechanSizeOutOfRange"
  by (simp add: NewClientPool_def make_chan_def makechan_limit_def)

text \<open>
  C6. \<^verbatim>\<open>NewClientPool\<close> returns an error if and only if one of \<open>initialCap \<ge> 0\<close>,
  \<open>maxCap \<ge> 1\<close>, \<open>initialCap \<le> maxCap\<close> is violated, and under the same condition, and
  only then, its result is the nil pool with the error \<^verbatim>\<open>invalid capacity settings\<close>
  (the spec's InvalidCapacity) in an unchanged world: the factory has not been invoked.
\<close>

theorem NewClientPool_fails_iff:
  "((\<exists>p e w'. NewClientPool initialCap maxCap f w = Returns ((p, Some e), w'))
      = (\<not> (0 \<le> initialCap \<and> 1 \<le> maxCap \<and> initialCap \<le> maxCap)))
   \<and> ((NewClientPool initialCap maxCap f w =
          Returns ((None, Some ''invalid capacity settings''), w))
      = (\<not> (0 \<le> initialCap \<and> 1 \<le> maxCap \<and> initialCap \<le> maxCap)))"
proof (cases "0 \<le> initialCap \<and> 1 \<le> maxCap \<and> initialCap \<le> maxCap")
  case True
  then have v: "0 \<le> initialCap" "initialCap \<le> maxCap" "1 \<le> maxCap" by simp_all
  show ?thesis
  proof (cases "maxCap \<le> makechan_limit")
    case True
    with \<open>0 \<le> initialCap \<and> 1 \<le> maxCap \<and> initialCap \<le> maxCap\<close>
    show ?thesis using NewClientPool_valid [OF v True, of f w] by simp
  next
    case False
    then have "makechan_limit < maxCap" by simp
    with \<open>0 \<le> initialCap \<and> 1 \<le> maxCap \<and> initialCap \<le> maxCap\<close>
    show ?thesis using NewClientPool_too_large [OF v, of f w] by simp
  qed
next
  case False
  then have "initialCap < 0 \<or> maxCap \<le> 0 \<or> initialCap > maxCap" by linarith
  from NewClientPool_invalid [OF this, of f w] False show ?thesis by simp
qed

theorem NewClientPool_fails_iff_witness:
  "NewClientPool 3 2 fresh w0 = Returns ((None, Some ''invalid capacity settings''), w0)
   \<and> NewClientPool (- 1) 2 fresh w0 = Returns ((None, Some ''invalid capacity settings''), w0)
   \<and> NewClientPool 0 0 fresh w0 = Returns ((None, Some ''invalid capacity settings''), w0)
   \<and> NewClientPool 2 5 fresh w0 \<noteq> Returns ((None, Some ''invalid capacity settings''), w0)"
  using NewClientPool_fails_iff [of 3 2 fresh w0] NewClientPool_fails_iff [of "- 1" 2 fresh w0]
    NewClientPool_fails_iff [of 0 0 fresh w0] NewClientPool_fails_iff [of 2 5 fresh w0]
  by simp

section \<open>Done\<close>

text \<open>
  C8 (amended to pools without a resident nil pointer). One call of \<open>Done\<close> on an open
  pool whose resident handles are all non-nil, the clients \<open>hs\<close>, closes the channel and
  then receives every resident handle and calls \<^verbatim>\<open>CloseIdleConnections\<close> on it, in
  queue order; when it returns the channel is closed and empty and exactly \<open>hs\<close> have
  been released.
\<close>

theorem Done_drains:
  assumes "clients c = Some ch" "\<not> closed ch" "buf ch = map Client hs"
  shows "Done c w = Returns (c\<lparr>clients := Some (ch\<lparr>buf := [], closed := True\<rparr>)\<rparr>,
                             w\<lparr>released := released w @ hs\<rparr>)"
  using assms by (simp add: Done_def close_chan_def range_close_clients)

theorem Done_drains_witness:
  "Done example_pool w2 =
     Returns (\<lparr>clients = Some \<lparr>buf = [], cap = 5, closed = True\<rparr>, factory = fresh\<rparr>,
              \<lparr>calls = 2, released = [0, 1]\<rparr>)"
  using Done_drains [of example_pool "\<lparr>buf = [Client 0, Client 1], cap = 5, closed = False\<rparr>"
      "[0, 1]" w2]
  by (simp add: example_pool_def w2_def)

text \<open>
  C8 as stated speaks of every open pool. \<^verbatim>\<open>NewClientPool\<close> queues whatever the factory
  returns, so the pool built from a factory that returns the nil pointer is open with
  the nil pointer resident; on it \<open>Done\<close> closes the channel, receives the nil pointer
  and panics in \<^verbatim>\<open>CloseIdleConnections\<close> instead of returning.
\<close>

theorem Done_nil_resident_counterexample:
  "NewClientPool 1 1 no_client w0 = Returns ((Some nil_pool, None), w_nil)
   \<and> resident nil_pool = [NilClient]
   \<and> Done nil_pool w_nil = Panics NilPointerDereference"
  using NewClientPool_nil_example
  by (simp add: nil_pool_def resident_def Done_def close_chan_def)

text \<open>
  C9. On every pool on which \<open>Done\<close> has returned once, a second \<open>Done\<close> closes the
  closed channel again and panics, in whatever world it is called.
\<close>

theorem Done_twice_panics:
  assumes "Done c w = Returns (c', w')"
  shows "Done c' w'' = Panics CloseOfClosedChannel"
proof -
  from Done_returns [OF assms] obtain ch where "clients c' = Some ch" "closed ch" by blast
  then show ?thesis by (rule Done_closed)
qed

theorem Done_twice_panics_witness:
  "Done example_pool w2 = Returns (example_shut, w2_released)
   \<and> Done example_shut w2_released = Panics CloseOfClosedChannel"
  using Done_example Done_twice_panics [OF Done_example]
  by simp

section \<open>Round trip\<close>

text \<open>
  C10 (amended to a non-nil handle at the head of the buffer). On an open pool whose
  buffer is non-empty and starts with a non-nil handle, run without interleaving, \<open>Get\<close>
  followed by \<open>Put\<close> of the handle it returned leaves \<open>Len\<close> unchanged: the handle moves
  from the head of the queue to its end, the factory is not invoked and nothing is
  released. The channel holds at most its capacity, as every Go channel does.
\<close>

theorem Get_Put_roundtrip:
  assumes "clients c = Some ch" "\<not> closed ch" "length (buf ch) \<le> cap ch"
    and "buf ch = Client h # vs"
  shows "\<exists>c1 c2. Get c w = Returns (Client h, c1, w)
           \<and> Put c1 (Client h) w = Returns (None, c2, w)
           \<and> resident c2 = vs @ [Client h]
           \<and> Len c2 = Len c"
proof -
  let ?ch1 = "ch\<lparr>buf := vs\<rparr>"
  let ?c1 = "c\<lparr>clients := Some ?ch1\<rparr>"
  let ?c2 = "?c1\<lparr>clients := Some (?ch1\<lparr>buf := buf ?ch1 @ [Client h]\<rparr>)\<rparr>"
  have g: "Get c w = Returns (Client h, ?c1, w)"
    using assms(1,4) by (rule Get_dequeue)
  have p: "Put ?c1 (Client h) w = Returns (None, ?c2, w)"
    using assms by (intro Put_enqueue) simp_all
  have "resident ?c2 = vs @ [Client h]" "Len ?c2 = Len c"
    using assms by (simp_all add: resident_def Len_def getConnsAndFactory_def len_chan_def)
  with g p show ?thesis by blast
qed

theorem Get_Put_roundtrip_witness:
  "\<exists>c1 c2. Get example_pool w2 = Returns (Client 0, c1, w2)
           \<and> Put c1 (Client 0) w2 = Returns (None, c2, w2)
           \<and> resident c2 = [Client 1, Client 0]
           \<and> Len c2 = Len example_pool"
  using Get_Put_roundtrip [of example_pool
      "\<lparr>buf = [Client 0, Client 1], cap = 5, closed = False\<rparr>" 0 "[Client 1]" w2]
  by (simp add: example_pool_def)

text \<open>
  C10 as stated speaks of every open pool with a non-empty buffer. On the pool built from
  a factory that returns the nil pointer, \<open>Get\<close> returns the resident nil pointer,
  \<open>Put\<close> rejects it, and \<open>Len\<close> has dropped from \<open>1\<close> to \<open>0\<close>.
\<close>

theorem Get_Put_nil_counterexample:
  "NewClientPool 1 1 no_client w0 = Returns ((Some nil_pool, None), w_nil)
   \<and> Len nil_pool = 1
   \<and> Get nil_pool w_nil = Returns (NilClient, nil_pool_taken, w_nil)
   \<and> Put nil_pool_taken NilClient w_nil =
       Returns (Some ''client is nil. rejecting'', nil_pool_taken, w_nil)
   \<and> Len nil_pool_taken = 0"
  using NewClientPool_nil_example
  by (simp add: nil_pool_def nil_pool_taken_def Len_def getConnsAndFactory_def len_chan_def
      Get_def select_recv_def Put_def)

end
